theory Spec2Isabelle
  imports Main
begin

section \<open>The history stack of \<^verbatim>\<open>src/lib/hooks/use-undo-redo.tsx\<close>\<close>

text \<open>
  An \<^verbatim>\<open>UndoAction\<close> is a pair of closures without arguments. The closures of this
  repository read and write the state of the component that owns the stack (the text,
  a flag, the log and the browser's store) and never the stack itself, so a closure is a
  function on that outer state, the type parameter \<open>'e\<close>. The stack is the two arrays
  \<^verbatim>\<open>past\<close> (most recent last) and \<^verbatim>\<open>future\<close> (next to redo first).
\<close>

record 'e UndoAction =
  doWithData :: "'e \<Rightarrow> 'e"
  undoWithData :: "'e \<Rightarrow> 'e"

record 'e UndoStack =
  past :: "'e UndoAction list"
  future :: "'e UndoAction list"

definition createUndoStack :: "'e UndoStack" where
  "createUndoStack = \<lparr>past = [], future = []\<rparr>"

text \<open>
  \<^verbatim>\<open>structuredClone\<close> copies its argument. Values are immutable here, so the copy is the
  value; the arguments of every call in this repository are strings, which can be cloned.
\<close>

definition structuredClone :: "'a \<Rightarrow> 'a" where
  "structuredClone x = x"

text \<open>
  \<^verbatim>\<open>push(doFn, undoFn, ...args)\<close>: clone the arguments, build the action, run its forward
  closure, append it to \<^verbatim>\<open>past\<close> and empty \<^verbatim>\<open>future\<close>. The operations take and return
  the stack together with the outer state the closures act on.
\<close>

definition push ::
  "('a \<Rightarrow> 'e \<Rightarrow> 'e) \<Rightarrow> ('a \<Rightarrow> 'e \<Rightarrow> 'e) \<Rightarrow> 'a \<Rightarrow> 'e UndoStack \<times> 'e \<Rightarrow> 'e UndoStack \<times> 'e" where
  "push doFn undoFn withArgumentsToClone = (\<lambda>(st, e).
     let clonedArgs = structuredClone withArgumentsToClone;
         action = \<lparr>doWithData = doFn clonedArgs, undoWithData = undoFn clonedArgs\<rparr>;
         e' = doWithData action e
     in (st\<lparr>past := past st @ [action], future := []\<rparr>, e'))"

text \<open>
  \<^verbatim>\<open>undo\<close>: \<^verbatim>\<open>past.pop()\<close> gives \<^verbatim>\<open>undefined\<close> on the empty array, and then nothing
  happens; otherwise the popped action is undone and put at the front of \<^verbatim>\<open>future\<close>.
\<close>

definition undo :: "'e UndoStack \<times> 'e \<Rightarrow> 'e UndoStack \<times> 'e" where
  "undo = (\<lambda>(st, e).
     if past st = [] then (st, e)
     else let action = last (past st);
              st' = st\<lparr>past := butlast (past st)\<rparr>;
              e' = undoWithData action e
          in (st'\<lparr>future := action # future st'\<rparr>, e'))"

text \<open>\<^verbatim>\<open>redo\<close>: \<^verbatim>\<open>future.shift()\<close>, the forward closure, \<^verbatim>\<open>past.push\<close>.\<close>

definition redo :: "'e UndoStack \<times> 'e \<Rightarrow> 'e UndoStack \<times> 'e" where
  "redo = (\<lambda>(st, e).
     case future st of
       [] \<Rightarrow> (st, e)
     | action # rest \<Rightarrow>
         let st' = st\<lparr>future := rest\<rparr>;
             e' = doWithData action e
         in (st'\<lparr>past := past st' @ [action]\<rparr>, e'))"

definition undoAvailable :: "'e UndoStack \<Rightarrow> bool" where
  "undoAvailable st = (length (past st) > 0)"

definition redoAvailable :: "'e UndoStack \<Rightarrow> bool" where
  "redoAvailable st = (length (future st) > 0)"

text \<open>\<^verbatim>\<open>clear\<close> truncates both arrays and returns \<^verbatim>\<open>true\<close>.\<close>

definition clear :: "'e UndoStack \<Rightarrow> 'e UndoStack \<times> bool" where
  "clear st = (st\<lparr>past := [], future := []\<rparr>, True)"

subsection \<open>The hook \<^verbatim>\<open>useUndoStack\<close>\<close>

text \<open>
  The hook holds one stack in a ref and hands out \<^verbatim>\<open>undo\<close>, \<^verbatim>\<open>redo\<close> as they are,
  \<^verbatim>\<open>clear\<close> with its result dropped, \<^verbatim>\<open>pushAction\<close> (which is \<^verbatim>\<open>push\<close>) and
  \<^verbatim>\<open>pushManualAction\<close>, which appends the action without running it. The two flags the
  hook returns are the getters of the stack read when the component renders; the model
  reads the getters on the current stack.
\<close>

definition clearUndoStack :: "'e UndoStack \<Rightarrow> 'e UndoStack" where
  "clearUndoStack st = fst (clear st)"

definition pushAction ::
  "('a \<Rightarrow> 'e \<Rightarrow> 'e) \<Rightarrow> ('a \<Rightarrow> 'e \<Rightarrow> 'e) \<Rightarrow> 'a \<Rightarrow> 'e UndoStack \<times> 'e \<Rightarrow> 'e UndoStack \<times> 'e" where
  "pushAction doFn undoFn args = push doFn undoFn args"

definition pushManualAction :: "('e \<Rightarrow> 'e) \<Rightarrow> ('e \<Rightarrow> 'e) \<Rightarrow> 'e UndoStack \<Rightarrow> 'e UndoStack" where
  "pushManualAction doFn undoFn st =
     (let action = \<lparr>doWithData = doFn, undoWithData = undoFn\<rparr>
      in st\<lparr>past := past st @ [action], future := []\<rparr>)"

section \<open>The component of \<^verbatim>\<open>src/components/editor.tsx\<close>\<close>

text \<open>
  The state of the component outside the stack: the \<^verbatim>\<open>text\<close> state, \<^verbatim>\<open>isLoaded\<close>, the
  two refs \<^verbatim>\<open>isUndoRedoOperation\<close> and \<^verbatim>\<open>historyRef\<close>, and the browser's
  \<^verbatim>\<open>localStorage\<close>, a map from keys to strings. The component runs in the browser
  (\<^verbatim>\<open>"use client"\<close>), where \<^verbatim>\<open>typeof window !== "undefined"\<close> holds. One event handler
  runs to its end before the next starts, and \<^verbatim>\<open>setText\<close> is the assignment of the
  state a handler leaves behind.
\<close>

record Editor =
  text_value :: string
  isLoaded :: bool
  isUndoRedoOperation :: bool
  historyRef :: "string list"
  localStorage :: "string \<rightharpoonup> string"

type_synonym session = "Editor UndoStack \<times> Editor"

definition setText :: "string \<Rightarrow> Editor \<Rightarrow> Editor" where
  "setText t w = w\<lparr>text_value := t\<rparr>"

definition getItem :: "string \<Rightarrow> Editor \<Rightarrow> string option" where
  "getItem k w = localStorage w k"

definition setItem :: "string \<Rightarrow> string \<Rightarrow> Editor \<Rightarrow> Editor" where
  "setItem k v w = w\<lparr>localStorage := (localStorage w)(k \<mapsto> v)\<rparr>"

definition removeItem :: "string \<Rightarrow> Editor \<Rightarrow> Editor" where
  "removeItem k w = w\<lparr>localStorage := (localStorage w)(k := None)\<rparr>"

text \<open>
  \<^verbatim>\<open>JSON.stringify\<close> and \<^verbatim>\<open>JSON.parse\<close> belong to the platform. They are parameters
  of the functions that call them: an encoder of string arrays, and a decoder whose
  result \<open>None\<close> is the exception \<^verbatim>\<open>JSON.parse\<close> throws. The source casts the decoded
  value to \<^verbatim>\<open>string[]\<close>, and so does the type of the decoder.
\<close>

definition saveHistoryToStorage :: "(string list \<Rightarrow> string) \<Rightarrow> string list \<Rightarrow> Editor \<Rightarrow> Editor" where
  "saveHistoryToStorage JSON_stringify history w =
     setItem ''textbox-history'' (JSON_stringify history) w"

text \<open>
  The body shared by the closures that apply a value on behalf of the stack: raise the
  flag, \<^verbatim>\<open>setText\<close>, lower the flag.
\<close>

definition applyText :: "string \<Rightarrow> Editor \<Rightarrow> Editor" where
  "applyText t w =
     (let w1 = w\<lparr>isUndoRedoOperation := True\<rparr>;
          w2 = setText t w1
      in w2\<lparr>isUndoRedoOperation := False\<rparr>)"

subsection \<open>The load effect\<close>

text \<open>
  Both closures of the load effect are declared with the single parameter \<^verbatim>\<open>text\<close>;
  \<^verbatim>\<open>push\<close> calls them with the cloned arguments \<^verbatim>\<open>(newText, oldText)\<close>, so the parameter
  is bound to the first one in both.
\<close>

definition loadDoFn :: "string \<times> string \<Rightarrow> Editor \<Rightarrow> Editor" where
  "loadDoFn = (\<lambda>(text, _). applyText text)"

definition loadUndoFn :: "string \<times> string \<Rightarrow> Editor \<Rightarrow> Editor" where
  "loadUndoFn = (\<lambda>(text, _). applyText text)"

text \<open>The loop \<^verbatim>\<open>for (let i = 1; i < history.length; i++)\<close>, from index \<open>i\<close> on.\<close>

function reconstruct :: "string list \<Rightarrow> nat \<Rightarrow> session \<Rightarrow> session" where
  "reconstruct history i s =
     (if i < length history
      then let newText = history ! i;
               oldText = history ! (i - 1)
           in reconstruct history (Suc i) (pushAction loadDoFn loadUndoFn (newText, oldText) s)
      else s)"
  by pat_completeness auto
termination
  by (relation "measure (\<lambda>(history, i, s). length history - i)") auto

declare reconstruct.simps [simp del]

text \<open>
  The effect that runs once when the component is mounted. \<^verbatim>\<open>savedText || ""\<close> is the
  empty string for a missing key, and \<^verbatim>\<open>if (savedHistory)\<close> fails for a missing key and
  for the empty string. The \<^verbatim>\<open>catch\<close> branch is taken when the decoder throws.
\<close>

definition loadEffect :: "(string \<Rightarrow> string list option) \<Rightarrow> session \<Rightarrow> session" where
  "loadEffect JSON_parse = (\<lambda>(st, w).
     let savedText = getItem ''textbox-content'' w;
         savedHistory = getItem ''textbox-history'' w;
         initialText = (case savedText of None \<Rightarrow> '''' | Some t \<Rightarrow> t);
         w1 = setText initialText w;
         (st2, w2) =
           (case savedHistory of
              None \<Rightarrow> (st, w1\<lparr>historyRef := [initialText]\<rparr>)
            | Some blob \<Rightarrow>
                if blob = '''' then (st, w1\<lparr>historyRef := [initialText]\<rparr>)
                else (case JSON_parse blob of
                        None \<Rightarrow> (st, w1\<lparr>historyRef := [initialText]\<rparr>)
                      | Some history \<Rightarrow>
                          let w' = w1\<lparr>historyRef := history\<rparr>
                          in if length history > 1 then reconstruct history 1 (st, w')
                             else (st, w')))
     in (st2, w2\<lparr>isLoaded := True\<rparr>))"

text \<open>A freshly mounted component over a given store: the initial values of the hooks.\<close>

definition mount :: "(string \<rightharpoonup> string) \<Rightarrow> session" where
  "mount store =
     (createUndoStack,
      \<lparr>text_value = '''', isLoaded = False, isUndoRedoOperation = False,
       historyRef = [], localStorage = store\<rparr>)"

text \<open>
  The effect that follows a render in which \<^verbatim>\<open>text\<close> or \<^verbatim>\<open>isLoaded\<close> changed: it
  writes the text under \<^verbatim>\<open>textbox-content\<close> once the component is loaded.
\<close>

definition saveEffect :: "Editor \<Rightarrow> Editor" where
  "saveEffect w = (if isLoaded w then setItem ''textbox-content'' (text_value w) w else w)"

definition afterRender :: "session \<Rightarrow> session \<Rightarrow> session" where
  "afterRender before after =
     (if text_value (snd after) \<noteq> text_value (snd before) \<or> isLoaded (snd after) \<noteq> isLoaded (snd before)
      then (fst after, saveEffect (snd after))
      else after)"

subsection \<open>The event handlers\<close>

definition updateText :: "(string list \<Rightarrow> string) \<Rightarrow> string \<Rightarrow> string \<Rightarrow> session \<Rightarrow> session" where
  "updateText JSON_stringify newText oldText = (\<lambda>(st, w).
     if isUndoRedoOperation w then (st, setText newText w)
     else let w1 = setText newText w;
              newHistory = historyRef w1 @ [newText];
              w2 = w1\<lparr>historyRef := newHistory\<rparr>;
              w3 = saveHistoryToStorage JSON_stringify newHistory w2
          in (pushManualAction (applyText newText) (applyText oldText) st, w3))"

definition handleTextChange :: "(string list \<Rightarrow> string) \<Rightarrow> string \<Rightarrow> session \<Rightarrow> session" where
  "handleTextChange JSON_stringify newText s =
     (let oldText = text_value (snd s)
      in updateText JSON_stringify newText oldText s)"

definition handleUndo :: "session \<Rightarrow> session" where
  "handleUndo s = undo s"

definition handleRedo :: "session \<Rightarrow> session" where
  "handleRedo s = redo s"

text \<open>
  The closures of \<^verbatim>\<open>handleClear\<close>, pushed with the arguments \<^verbatim>\<open>("", oldText)\<close>. The
  forward closure takes no parameter. The backward closure is declared with the single
  parameter \<^verbatim>\<open>text\<close>, which \<^verbatim>\<open>push\<close> binds to the first cloned argument.
\<close>

definition clearDoFn :: "string \<times> string \<Rightarrow> Editor \<Rightarrow> Editor" where
  "clearDoFn = (\<lambda>_. applyText '''')"

definition clearUndoFn :: "(string list \<Rightarrow> string) \<Rightarrow> string \<times> string \<Rightarrow> Editor \<Rightarrow> Editor" where
  "clearUndoFn JSON_stringify = (\<lambda>(text, _) w.
     let w1 = applyText text w;
         restoredHistory = historyRef w1 @ [text];
         w2 = w1\<lparr>historyRef := restoredHistory\<rparr>
     in saveHistoryToStorage JSON_stringify restoredHistory w2)"

definition handleClear :: "(string list \<Rightarrow> string) \<Rightarrow> session \<Rightarrow> session" where
  "handleClear JSON_stringify = (\<lambda>(st, w).
     let oldText = text_value w;
         w1 = setText '''' w;
         newHistory = [''''];
         w2 = w1\<lparr>historyRef := newHistory\<rparr>;
         w3 = saveHistoryToStorage JSON_stringify newHistory w2;
         st1 = clearUndoStack st
     in pushAction clearDoFn (clearUndoFn JSON_stringify) ('''', oldText) (st1, w3))"

definition defaultText :: string where
  "defaultText = ''Type something here to test undo/redo functionality...''"

definition handleClearStorage :: "session \<Rightarrow> session" where
  "handleClearStorage = (\<lambda>(st, w).
     let w1 = removeItem ''textbox-content'' w;
         w2 = removeItem ''textbox-history'' w1;
         w3 = setText defaultText w2;
         w4 = w3\<lparr>historyRef := [defaultText]\<rparr>
     in (clearUndoStack st, w4))"

subsection \<open>Initialisation as the specification words it\<close>

text \<open>
  The specification describes the replay of the log with manual pushes: the pair
  (value at \<open>i - 1\<close>, value at \<open>i\<close>) is recorded as an action whose forward procedure
  sets the later value and whose backward procedure sets the earlier one, and the forward
  procedure is not run. These two definitions follow those words, and only serve to be
  compared with \<open>reconstruct\<close> and \<open>loadEffect\<close>, which follow the source.
\<close>

function reconstruct_spec :: "string list \<Rightarrow> nat \<Rightarrow> session \<Rightarrow> session" where
  "reconstruct_spec history i s =
     (if i < length history
      then let newText = history ! i;
               oldText = history ! (i - 1)
           in reconstruct_spec history (Suc i)
                (pushManualAction (applyText newText) (applyText oldText) (fst s), snd s)
      else s)"
  by pat_completeness auto
termination
  by (relation "measure (\<lambda>(history, i, s). length history - i)") auto

declare reconstruct_spec.simps [simp del]

definition initialize_spec :: "(string \<Rightarrow> string list option) \<Rightarrow> session \<Rightarrow> session" where
  "initialize_spec JSON_parse = (\<lambda>(st, w).
     let savedText = getItem ''textbox-content'' w;
         savedHistory = getItem ''textbox-history'' w;
         initialText = (case savedText of None \<Rightarrow> '''' | Some t \<Rightarrow> t);
         w1 = setText initialText w;
         (st2, w2) =
           (case savedHistory of
              None \<Rightarrow> (st, w1\<lparr>historyRef := [initialText]\<rparr>)
            | Some blob \<Rightarrow>
                (case JSON_parse blob of
                   None \<Rightarrow> (st, w1\<lparr>historyRef := [initialText]\<rparr>)
                 | Some history \<Rightarrow> reconstruct_spec history 1 (st, w1\<lparr>historyRef := history\<rparr>)))
     in (st2, w2\<lparr>isLoaded := True\<rparr>))"

subsection \<open>Concrete stores, encoders and decoders for the closed examples\<close>

text \<open>
  The theorems below hold for every encoder and decoder. The closed examples need one
  of each: an encoder that writes the entries one after the other, each followed by a
  line feed, and a decoder that knows the blobs of a table and throws on every other.
\<close>

definition linesStringify :: "string list \<Rightarrow> string" where
  "linesStringify history = concat (map (\<lambda>x. x @ [CHR 0x0A]) history)"

definition tableParse :: "(string \<times> string list) list \<Rightarrow> string \<Rightarrow> string list option" where
  "tableParse table blob = map_of table blob"

definition storeOf :: "(string \<times> string) list \<Rightarrow> (string \<rightharpoonup> string)" where
  "storeOf items = map_of items"

definition blobTwo :: string where
  \<open>blobTwo = ''["","a"]''\<close>

definition blobFour :: string where
  \<open>blobFour = ''["","a","ab","abc"]''\<close>

definition blobBroken :: string where
  \<open>blobBroken = ''["","a"''\<close>

definition logTwo :: "string list" where
  "logTwo = ['''', ''a'']"

definition logFour :: "string list" where
  "logFour = ['''', ''a'', ''ab'', ''abc'']"

definition parseTwo :: "string \<Rightarrow> string list option" where
  "parseTwo = tableParse [(blobTwo, logTwo)]"

definition parseFour :: "string \<Rightarrow> string list option" where
  "parseFour = tableParse [(blobFour, logFour)]"

text \<open>A new visitor: nothing is stored, and the load effect has run.\<close>

definition freshSession :: session where
  "freshSession = loadEffect (tableParse []) (mount (storeOf []))"

text \<open>
  The store left behind by the visit: type \<^verbatim>\<open>a\<close> into the empty text area, undo.
  The content key holds the empty text again, the log still holds both entries.
\<close>

definition storeAfterUndo :: "string \<rightharpoonup> string" where
  "storeAfterUndo = storeOf [(''textbox-content'', ''''), (''textbox-history'', blobTwo)]"

definition storeFour :: "string \<rightharpoonup> string" where
  "storeFour = storeOf [(''textbox-content'', ''abc''), (''textbox-history'', blobFour)]"

definition storeBroken :: "string \<rightharpoonup> string" where
  "storeBroken = storeOf [(''textbox-content'', ''hello''), (''textbox-history'', blobBroken)]"

subsection \<open>The flag between two events\<close>

text \<open>
  An action lowers the flag when both of its closures leave \<^verbatim>\<open>isUndoRedoOperation\<close>
  false. A session is settled when the flag is down and every recorded action lowers it.
\<close>

definition lowersFlag :: "Editor UndoAction \<Rightarrow> bool" where
  "lowersFlag a =
     (\<forall>w. \<not> isUndoRedoOperation (doWithData a w) \<and> \<not> isUndoRedoOperation (undoWithData a w))"

definition settled :: "session \<Rightarrow> bool" where
  "settled s =
     (\<not> isUndoRedoOperation (snd s)
      \<and> list_all lowersFlag (past (fst s)) \<and> list_all lowersFlag (future (fst s)))"

section \<open>Facts about the history stack\<close>

lemmas stack_defs =
  createUndoStack_def structuredClone_def push_def undo_def redo_def undoAvailable_def
  redoAvailable_def clear_def clearUndoStack_def pushAction_def pushManualAction_def

lemmas editor_defs =
  setText_def getItem_def setItem_def removeItem_def saveHistoryToStorage_def applyText_def
  loadDoFn_def loadUndoFn_def loadEffect_def mount_def updateText_def handleTextChange_def
  clearDoFn_def clearUndoFn_def handleClear_def handleClearStorage_def

lemmas example_defs =
  linesStringify_def tableParse_def storeOf_def blobTwo_def blobFour_def blobBroken_def
  logTwo_def logFour_def parseTwo_def parseFour_def
  freshSession_def storeAfterUndo_def storeFour_def storeBroken_def

lemma undo_empty: "past st = [] \<Longrightarrow> undo (st, e) = (st, e)"
  by (simp add: undo_def)

lemma redo_empty: "future st = [] \<Longrightarrow> redo (st, e) = (st, e)"
  by (simp add: redo_def)

lemma undo_snoc:
  "past st = p @ [a] \<Longrightarrow>
   undo (st, e) = (st\<lparr>past := p, future := a # future st\<rparr>, undoWithData a e)"
  by (simp add: undo_def Let_def)

lemma redo_cons:
  "future st = a # f \<Longrightarrow>
   redo (st, e) = (st\<lparr>future := f, past := past st @ [a]\<rparr>, doWithData a e)"
  by (simp add: redo_def Let_def)

lemma pushAction_fst:
  "fst (pushAction doFn undoFn args s) =
     (fst s)\<lparr>past := past (fst s) @ [\<lparr>doWithData = doFn args, undoWithData = undoFn args\<rparr>],
             future := []\<rparr>"
  by (cases s) (simp add: pushAction_def push_def structuredClone_def Let_def)

lemma pushAction_snd: "snd (pushAction doFn undoFn args s) = doFn args (snd s)"
  by (cases s) (simp add: pushAction_def push_def structuredClone_def Let_def)

text \<open>
  \<open>k\<close> undos in a row remove the last \<open>k\<close> actions of \<^verbatim>\<open>past\<close> (all of them when there
  are fewer) and run their backward closures, the most recent first.
\<close>

lemma undo_funpow_past:
  "past (fst ((undo ^^ k) (st, e))) = take (length (past st) - k) (past st)"
proof (induction k arbitrary: st e)
  case 0
  show ?case by simp
next
  case (Suc k)
  show ?case
  proof (cases "past st" rule: rev_cases)
    case Nil
    then show ?thesis using Suc.IH [of st e] by (simp add: funpow_swap1 undo_empty)
  next
    case (snoc p a)
    then show ?thesis
      using Suc.IH [of "st\<lparr>past := p, future := a # future st\<rparr>" "undoWithData a e"]
      by (simp add: funpow_swap1 undo_snoc)
  qed
qed

lemma undo_funpow_snd:
  "snd ((undo ^^ k) (st, e)) = fold undoWithData (take k (rev (past st))) e"
proof (induction k arbitrary: st e)
  case 0
  show ?case by simp
next
  case (Suc k)
  show ?case
  proof (cases "past st" rule: rev_cases)
    case Nil
    then show ?thesis using Suc.IH [of st e] by (simp add: funpow_swap1 undo_empty)
  next
    case (snoc p a)
    then show ?thesis
      using Suc.IH [of "st\<lparr>past := p, future := a # future st\<rparr>" "undoWithData a e"]
      by (simp add: funpow_swap1 undo_snoc)
  qed
qed

section \<open>Facts about the component\<close>

subsection \<open>A change of the text area\<close>

lemma handleTextChange_idle:
  "\<not> isUndoRedoOperation w \<Longrightarrow>
   handleTextChange js c (st, w) =
     (st\<lparr>past := past st @ [\<lparr>doWithData = applyText c, undoWithData = applyText (text_value w)\<rparr>],
         future := []\<rparr>,
      w\<lparr>text_value := c, historyRef := historyRef w @ [c],
        localStorage := (localStorage w)(''textbox-history'' \<mapsto> js (historyRef w @ [c]))\<rparr>)"
  by (simp add: handleTextChange_def updateText_def pushManualAction_def Let_def
      setText_def saveHistoryToStorage_def setItem_def)

lemma commits_effect:
  "\<not> isUndoRedoOperation w \<Longrightarrow>
   past (fst (fold (handleTextChange js) cs (st, w))) =
     past st @ map (\<lambda>(old, new). \<lparr>doWithData = applyText new, undoWithData = applyText old\<rparr>)
                 (zip (text_value w # cs) cs)
   \<and> \<not> isUndoRedoOperation (snd (fold (handleTextChange js) cs (st, w)))
   \<and> text_value (snd (fold (handleTextChange js) cs (st, w))) = last (text_value w # cs)"
proof (induction cs arbitrary: st w)
  case Nil
  then show ?case by simp
next
  case (Cons c cs)
  then show ?case by (simp add: handleTextChange_idle)
qed

subsection \<open>The reconstruction loop\<close>

lemma reconstruct_past:
  "past (fst (reconstruct h i s)) =
     past (fst s) @ map (\<lambda>j. \<lparr>doWithData = loadDoFn (h ! j, h ! (j - 1)),
                               undoWithData = loadUndoFn (h ! j, h ! (j - 1))\<rparr>) [i..<length h]"
proof (induction h i s rule: reconstruct.induct)
  case (1 h i s)
  show ?case
  proof (cases "i < length h")
    case True
    then show ?thesis
      using "1.IH" [OF True refl refl]
      by (subst reconstruct.simps) (simp add: pushAction_fst upt_conv_Cons)
  next
    case False
    then show ?thesis by (subst reconstruct.simps) simp
  qed
qed

lemma reconstruct_future:
  "future (fst (reconstruct h i s)) = (if i < length h then [] else future (fst s))"
proof (induction h i s rule: reconstruct.induct)
  case (1 h i s)
  show ?case
  proof (cases "i < length h")
    case True
    then show ?thesis
      using "1.IH" [OF True refl refl]
      by (subst reconstruct.simps) (simp add: pushAction_fst)
  next
    case False
    then show ?thesis by (subst reconstruct.simps) simp
  qed
qed

lemma reconstruct_snd:
  "snd (reconstruct h i s) = fold (\<lambda>j. loadDoFn (h ! j, h ! (j - 1))) [i..<length h] (snd s)"
proof (induction h i s rule: reconstruct.induct)
  case (1 h i s)
  show ?case
  proof (cases "i < length h")
    case True
    then show ?thesis
      using "1.IH" [OF True refl refl]
      by (subst reconstruct.simps) (simp add: pushAction_snd upt_conv_Cons)
  next
    case False
    then show ?thesis by (subst reconstruct.simps) simp
  qed
qed

lemma reconstruct_text:
  assumes "i < length h"
  shows "text_value (snd (reconstruct h i s)) = last h"
proof -
  from assms obtain n where n: "length h = Suc n" and le: "i \<le> n"
    by (cases "length h") auto
  have "h \<noteq> []" using assms by auto
  then have "last h = h ! n" using n by (simp add: last_conv_nth)
  then show ?thesis
    using le by (simp add: reconstruct_snd n loadDoFn_def applyText_def setText_def)
qed

lemma reconstruct_flag:
  "isUndoRedoOperation (snd (reconstruct h i s)) =
     (if i < length h then False else isUndoRedoOperation (snd s))"
proof (induction h i s rule: reconstruct.induct)
  case (1 h i s)
  show ?case
  proof (cases "i < length h")
    case True
    then show ?thesis
      using "1.IH" [OF True refl refl]
      by (subst reconstruct.simps)
         (simp add: pushAction_snd loadDoFn_def applyText_def setText_def)
  next
    case False
    then show ?thesis by (subst reconstruct.simps) simp
  qed
qed

text \<open>The load effect on a freshly mounted component whose store holds a log that parses.\<close>

lemma loadEffect_parsed:
  assumes "store ''textbox-history'' = Some blob" "blob \<noteq> ''''" "JSON_parse blob = Some history"
  shows "loadEffect JSON_parse (mount store) =
    (let w = \<lparr>text_value = (case store ''textbox-content'' of None \<Rightarrow> '''' | Some t \<Rightarrow> t),
              isLoaded = False, isUndoRedoOperation = False, historyRef = history,
              localStorage = store\<rparr>;
         s = reconstruct history 1 (createUndoStack, w)
     in (fst s, (snd s)\<lparr>isLoaded := True\<rparr>))"
proof (cases "1 < length history")
  case True
  then show ?thesis using assms
    by (simp add: loadEffect_def mount_def getItem_def setText_def Let_def split_beta)
next
  case False
  then have "reconstruct history 1 s = s" for s by (subst reconstruct.simps) simp
  then show ?thesis using assms False
    by (simp add: loadEffect_def mount_def getItem_def setText_def Let_def split_beta)
qed

subsection \<open>The flag is down between two events\<close>

text \<open>
  Every closure of the component lowers the flag before it returns, so the freshly
  mounted component is settled and every effect and handler keeps a session settled.
  The theorems on commits below assume that the flag is down, which is the case in
  every session the component can be in when an event arrives.
\<close>

lemma settled_mount: "settled (mount store)"
  by (simp add: settled_def mount_def createUndoStack_def)

lemma settled_undo: "settled s \<Longrightarrow> settled (undo s)"
proof (cases s)
  case (Pair st w)
  assume "settled s"
  then show ?thesis using Pair
    by (cases "past st" rule: rev_cases)
       (auto simp: settled_def undo_empty undo_snoc lowersFlag_def)
qed

lemma settled_redo: "settled s \<Longrightarrow> settled (redo s)"
proof (cases s)
  case (Pair st w)
  assume "settled s"
  then show ?thesis using Pair
    by (cases "future st")
       (auto simp: settled_def redo_empty redo_cons lowersFlag_def)
qed

lemma settled_handleTextChange: "settled s \<Longrightarrow> settled (handleTextChange js c s)"
  by (cases s)
     (simp add: settled_def handleTextChange_idle lowersFlag_def applyText_def setText_def)

lemma settled_handleClear: "settled s \<Longrightarrow> settled (handleClear js s)"
  by (cases s)
     (simp add: settled_def handleClear_def Let_def pushAction_fst pushAction_snd
        clearUndoStack_def clear_def lowersFlag_def clearDoFn_def clearUndoFn_def applyText_def
        setText_def saveHistoryToStorage_def setItem_def)

lemma settled_handleClearStorage: "settled s \<Longrightarrow> settled (handleClearStorage s)"
  by (cases s)
     (simp add: settled_def handleClearStorage_def Let_def clearUndoStack_def clear_def
        removeItem_def setText_def)

lemma settled_reconstruct: "settled s \<Longrightarrow> settled (reconstruct h i s)"
  by (auto simp: settled_def reconstruct_past reconstruct_future reconstruct_flag
        list_all_iff lowersFlag_def loadDoFn_def loadUndoFn_def applyText_def setText_def)

lemma settled_loadEffect: "settled s \<Longrightarrow> settled (loadEffect JSON_parse s)"
proof (cases s)
  case (Pair st w)
  assume a: "settled s"
  have base: "settled (st, w\<lparr>text_value := t, historyRef := h\<rparr>)" for t h
    using a Pair by (simp add: settled_def)
  show ?thesis
    unfolding Pair loadEffect_def
    using base settled_reconstruct [OF base]
    by (auto simp: Let_def setText_def getItem_def split_beta settled_def split: option.splits)
qed

lemma settled_afterRender: "settled s \<Longrightarrow> settled (afterRender s0 s)"
  by (simp add: settled_def afterRender_def saveEffect_def setItem_def)

text \<open>
  The save effect writes the content key only: the text, the log and the stack of a
  session are what the handler left.
\<close>

lemma afterRender_keeps:
  "fst (afterRender s0 s) = fst s
   \<and> text_value (snd (afterRender s0 s)) = text_value (snd s)
   \<and> historyRef (snd (afterRender s0 s)) = historyRef (snd s)"
  by (simp add: afterRender_def saveEffect_def setItem_def)

section \<open>The claims\<close>

subsection \<open>The history stack\<close>

text \<open>
  Claim C9. The operations of the history stack never fail: \<^verbatim>\<open>undo\<close> on an empty
  executed sequence and \<^verbatim>\<open>redo\<close> on an empty reversed sequence return the stack and
  the outer state (the live value with it) as they were, and \<^verbatim>\<open>clear\<close> always returns
  \<^verbatim>\<open>true\<close> and leaves both sequences empty. The functions of the model are total
  because the source has no branch that throws.
\<close>

theorem C9_stack_operations_total:
  "(past st = [] \<longrightarrow> undo (st, e) = (st, e) \<and> \<not> undoAvailable st)
   \<and> (future st = [] \<longrightarrow> redo (st, e) = (st, e) \<and> \<not> redoAvailable st)
   \<and> snd (clear st) = True
   \<and> past (fst (clear st)) = [] \<and> future (fst (clear st)) = []"
  by (simp add: undo_empty redo_empty clear_def undoAvailable_def redoAvailable_def)

theorem C9_stack_operations_total_witness:
  "past (createUndoStack :: Editor UndoStack) = []
   \<and> future (createUndoStack :: Editor UndoStack) = []
   \<and> undo (createUndoStack, snd freshSession) = (createUndoStack, snd freshSession)
   \<and> redo (createUndoStack, snd freshSession) = (createUndoStack, snd freshSession)
   \<and> snd (clear (fst freshSession)) = True"
proof -
  have p: "past (createUndoStack :: Editor UndoStack) = []"
    and f: "future (createUndoStack :: Editor UndoStack) = []"
    by (simp_all add: createUndoStack_def)
  from C9_stack_operations_total [of createUndoStack "snd freshSession"] p f
  have "undo (createUndoStack, snd freshSession) = (createUndoStack, snd freshSession)"
    and "redo (createUndoStack, snd freshSession) = (createUndoStack, snd freshSession)"
    by simp_all
  moreover have "snd (clear (fst freshSession)) = True"
    using C9_stack_operations_total [of "fst freshSession" "snd freshSession"] by simp
  ultimately show ?thesis using p f by simp
qed

text \<open>
  Claim C5. Every push of a new action empties the reversed sequence, in the form that
  runs the forward closure (\<^verbatim>\<open>push\<close>, \<^verbatim>\<open>pushAction\<close>) and in the manual form
  (\<^verbatim>\<open>pushManualAction\<close>). So after the commits \<open>a\<close> and \<open>b\<close>, an undo and the commit
  \<open>c\<close>, \<^verbatim>\<open>redoAvailable\<close> is false and \<^verbatim>\<open>redo\<close> changes nothing.
\<close>

theorem C5_push_empties_future:
  "future (fst (push doFn undoFn args s)) = []
   \<and> future (fst (pushAction doFn undoFn args s)) = []
   \<and> future (pushManualAction doFn' undoFn' st) = []
   \<and> (\<not> isUndoRedoOperation (snd t) \<longrightarrow>
        \<not> redoAvailable (fst (handleTextChange js c (undo (handleTextChange js b (handleTextChange js a t)))))
        \<and> redo (handleTextChange js c (undo (handleTextChange js b (handleTextChange js a t))))
            = handleTextChange js c (undo (handleTextChange js b (handleTextChange js a t))))"
proof -
  have 1: "future (fst (push doFn undoFn args s)) = []"
    by (cases s) (simp add: push_def Let_def)
  have 2: "future (fst (pushAction doFn undoFn args s)) = []"
    by (simp add: pushAction_fst)
  have 3: "future (pushManualAction doFn' undoFn' st) = []"
    by (simp add: pushManualAction_def Let_def)
  have 4: "\<not> redoAvailable (fst (handleTextChange js c (undo (handleTextChange js b (handleTextChange js a t)))))
        \<and> redo (handleTextChange js c (undo (handleTextChange js b (handleTextChange js a t))))
            = handleTextChange js c (undo (handleTextChange js b (handleTextChange js a t)))"
    if idle: "\<not> isUndoRedoOperation (snd t)"
  proof -
    obtain st0 w0 where t: "t = (st0, w0)" by (cases t)
    obtain st1 w1 where u: "undo (handleTextChange js b (handleTextChange js a t)) = (st1, w1)"
      by (cases "undo (handleTextChange js b (handleTextChange js a t))")
    have "\<not> isUndoRedoOperation w1"
      using u idle unfolding t
      by (auto simp: handleTextChange_idle undo_snoc applyText_def setText_def)
    then have "future (fst (handleTextChange js c (st1, w1))) = []"
      by (simp add: handleTextChange_idle)
    then show ?thesis
      unfolding u by (cases "handleTextChange js c (st1, w1)") (simp add: redoAvailable_def redo_empty)
  qed
  from 1 2 3 4 show ?thesis by blast
qed

theorem C5_push_empties_future_witness:
  "\<not> isUndoRedoOperation (snd freshSession)
   \<and> future (fst (pushAction clearDoFn (clearUndoFn linesStringify) ('''', ''b'') freshSession)) = []
   \<and> future (pushManualAction (applyText ''b'') (applyText ''a'') (fst freshSession)) = []
   \<and> \<not> redoAvailable (fst (handleTextChange linesStringify ''c''
          (undo (handleTextChange linesStringify ''b'' (handleTextChange linesStringify ''a'' freshSession)))))
   \<and> redo (handleTextChange linesStringify ''c''
          (undo (handleTextChange linesStringify ''b'' (handleTextChange linesStringify ''a'' freshSession))))
      = handleTextChange linesStringify ''c''
          (undo (handleTextChange linesStringify ''b'' (handleTextChange linesStringify ''a'' freshSession)))"
proof -
  have idle: "\<not> isUndoRedoOperation (snd freshSession)"
    by (simp add: example_defs editor_defs stack_defs)
  show ?thesis
    using idle
      C5_push_empties_future [where t = freshSession and js = linesStringify
        and a = "''a''" and b = "''b''" and c = "''c''"
        and s = freshSession and doFn = clearDoFn and undoFn = "clearUndoFn linesStringify"
        and args = "('''', ''b'')" and st = "fst freshSession"
        and doFn' = "applyText ''b''" and undoFn' = "applyText ''a''"]
    by simp
qed

subsection \<open>Commits, undo and redo\<close>

text \<open>
  Claim C6. For every value \<open>v\<close>: commit \<open>v\<close>, undo, redo leaves the live value \<open>v\<close> and
  the executed and reversed sequences as long as they were right after the commit. The
  whole session is then the one right after the commit. The commit is an event that
  arrives while no undo or redo is being applied (the flag is down).
\<close>

theorem C6_commit_undo_redo:
  assumes "\<not> isUndoRedoOperation (snd s)"
  shows "text_value (snd (redo (undo (handleTextChange js v s)))) = v
    \<and> length (past (fst (redo (undo (handleTextChange js v s)))))
        = length (past (fst (handleTextChange js v s)))
    \<and> length (future (fst (redo (undo (handleTextChange js v s)))))
        = length (future (fst (handleTextChange js v s)))
    \<and> redo (undo (handleTextChange js v s)) = handleTextChange js v s"
proof -
  obtain st w where s: "s = (st, w)" by (cases s)
  have idle: "\<not> isUndoRedoOperation w" using assms s by simp
  have eq: "redo (undo (handleTextChange js v (st, w))) = handleTextChange js v (st, w)"
    using idle by (simp add: handleTextChange_idle undo_snoc redo_cons applyText_def setText_def)
  have "text_value (snd (handleTextChange js v (st, w))) = v"
    using idle by (simp add: handleTextChange_idle)
  then show ?thesis by (simp add: s eq)
qed

theorem C6_commit_undo_redo_witness:
  "\<not> isUndoRedoOperation (snd freshSession)
   \<and> text_value (snd (redo (undo (handleTextChange linesStringify ''v'' freshSession)))) = ''v''
   \<and> length (past (fst (redo (undo (handleTextChange linesStringify ''v'' freshSession))))) = 1
   \<and> length (future (fst (redo (undo (handleTextChange linesStringify ''v'' freshSession))))) = 0"
proof -
  have idle: "\<not> isUndoRedoOperation (snd freshSession)"
    by (simp add: example_defs editor_defs stack_defs)
  have after: "length (past (fst (handleTextChange linesStringify ''v'' freshSession))) = 1
      \<and> length (future (fst (handleTextChange linesStringify ''v'' freshSession))) = 0"
    by (simp add: example_defs editor_defs stack_defs)
  note inst = C6_commit_undo_redo [OF idle, of linesStringify "''v''"]
  have a: "text_value (snd (redo (undo (handleTextChange linesStringify ''v'' freshSession)))) = ''v''"
    using inst by blast
  have b: "length (past (fst (redo (undo (handleTextChange linesStringify ''v'' freshSession)))))
      = length (past (fst (handleTextChange linesStringify ''v'' freshSession)))"
    using inst by blast
  have c: "length (future (fst (redo (undo (handleTextChange linesStringify ''v'' freshSession)))))
      = length (future (fst (handleTextChange linesStringify ''v'' freshSession)))"
    using inst by blast
  show ?thesis using idle a b c after by simp
qed

text \<open>
  Claim C4. For every \<open>n \<ge> 1\<close> and every run of commits \<open>c\<^sub>1 \<dots> c\<^sub>n\<close> in a session
  that starts with any live value and no recorded action, \<open>n\<close> undos bring the live
  value back to what it was before \<open>c\<^sub>1\<close>; \<^verbatim>\<open>undoAvailable\<close> is true after fewer than
  \<open>n\<close> undos and false after \<open>n\<close>.
\<close>

theorem C4_undo_all_commits:
  assumes idle: "\<not> isUndoRedoOperation (snd s)"
    and fresh: "past (fst s) = []"
    and ne: "cs \<noteq> []"
  shows "text_value (snd ((undo ^^ length cs) (fold (handleTextChange js) cs s))) = text_value (snd s)
    \<and> (\<forall>k < length cs. undoAvailable (fst ((undo ^^ k) (fold (handleTextChange js) cs s))))
    \<and> \<not> undoAvailable (fst ((undo ^^ length cs) (fold (handleTextChange js) cs s)))"
proof -
  obtain st w where s: "s = (st, w)" by (cases s)
  obtain st' w' where s': "fold (handleTextChange js) cs (st, w) = (st', w')"
    by (cases "fold (handleTextChange js) cs (st, w)")
  let ?acts = "map (\<lambda>(old, new). \<lparr>doWithData = applyText new, undoWithData = applyText old\<rparr>)
                 (zip (text_value w # cs) cs)"
  from commits_effect [of w js cs st] idle fresh s s'
  have p: "past st' = ?acts" by simp
  have len: "length (past st') = length cs" by (simp add: p)
  obtain c cs' where cs: "cs = c # cs'" using ne by (cases cs) auto
  have "snd ((undo ^^ length cs) (st', w')) = fold undoWithData (rev (past st')) w'"
    using undo_funpow_snd [of "length cs" st' w'] len by simp
  also have "\<dots> = foldr undoWithData (past st') w'" by (simp add: foldr_conv_fold)
  finally have "text_value (snd ((undo ^^ length cs) (st', w'))) = text_value w"
    by (simp add: p cs applyText_def setText_def)
  moreover have "\<forall>k < length cs. undoAvailable (fst ((undo ^^ k) (st', w')))"
    by (simp add: undoAvailable_def undo_funpow_past len)
  moreover have "\<not> undoAvailable (fst ((undo ^^ length cs) (st', w')))"
    by (simp add: undoAvailable_def undo_funpow_past len)
  ultimately show ?thesis by (simp add: s s')
qed

theorem C4_undo_all_commits_witness:
  "\<not> isUndoRedoOperation (snd freshSession) \<and> past (fst freshSession) = []
   \<and> [''x'', ''xy''] \<noteq> []
   \<and> text_value (snd freshSession) = ''''
   \<and> text_value (snd (undo (undo (fold (handleTextChange linesStringify) [''x'', ''xy''] freshSession)))) = ''''
   \<and> undoAvailable (fst (fold (handleTextChange linesStringify) [''x'', ''xy''] freshSession))
   \<and> undoAvailable (fst (undo (fold (handleTextChange linesStringify) [''x'', ''xy''] freshSession)))
   \<and> \<not> undoAvailable (fst (undo (undo (fold (handleTextChange linesStringify) [''x'', ''xy''] freshSession))))"
proof -
  have idle: "\<not> isUndoRedoOperation (snd freshSession)"
    and fresh: "past (fst freshSession) = []"
    and start: "text_value (snd freshSession) = ''''"
    by (simp_all add: example_defs editor_defs stack_defs)
  have ne: "[''x'', ''xy''] \<noteq> []" by simp
  let ?s = "fold (handleTextChange linesStringify) [''x'', ''xy''] freshSession"
  note inst = C4_undo_all_commits [OF idle fresh ne, of linesStringify]
  have two: "(undo ^^ length [''x'', ''xy'']) ?s = undo (undo ?s)"
    by (simp add: numeral_2_eq_2)
  from inst have all: "\<forall>k < length [''x'', ''xy'']. undoAvailable (fst ((undo ^^ k) ?s))"
    by blast
  have k0: "undoAvailable (fst ?s)" using all [rule_format, of 0] by simp
  have k1: "undoAvailable (fst (undo ?s))" using all [rule_format, of 1] by simp
  from inst two have "text_value (snd (undo (undo ?s))) = ''''"
    and "\<not> undoAvailable (fst (undo (undo ?s)))"
    by (simp_all add: start)
  then show ?thesis using idle fresh start k0 k1 by simp
qed

subsection \<open>Reset of the storage\<close>

text \<open>
  Claim C8. After \<^verbatim>\<open>handleClearStorage\<close> (the hard reset), whatever the session was,
  \<^verbatim>\<open>undo\<close> changes nothing: the handler removes both keys from the store, sets the
  live value to the default placeholder, sets the log to the single entry of that
  default, and clears the stack, so \<^verbatim>\<open>undoAvailable\<close> is false. (The save effect of
  the render that follows is a separate step; when the text has changed it writes the
  content key again, and it leaves the stack, the text and the log alone.)
\<close>

theorem C8_hardReset_not_undoable:
  "undo (handleClearStorage s) = handleClearStorage s
   \<and> \<not> undoAvailable (fst (handleClearStorage s))
   \<and> past (fst (handleClearStorage s)) = []
   \<and> future (fst (handleClearStorage s)) = []
   \<and> getItem ''textbox-content'' (snd (handleClearStorage s)) = None
   \<and> getItem ''textbox-history'' (snd (handleClearStorage s)) = None
   \<and> text_value (snd (handleClearStorage s)) = defaultText
   \<and> historyRef (snd (handleClearStorage s)) = [defaultText]"
  by (cases s)
     (simp add: handleClearStorage_def undo_def undoAvailable_def clearUndoStack_def clear_def
        getItem_def removeItem_def setText_def Let_def)

subsection \<open>Initialisation\<close>

text \<open>
  Claim C7. When the store holds a log that does not parse and the content \<^verbatim>\<open>hello\<close>,
  the load effect of a freshly mounted component ends normally (\<^verbatim>\<open>isLoaded\<close> is set):
  the live value is \<^verbatim>\<open>hello\<close>, \<^verbatim>\<open>undoAvailable\<close> is false, nothing can be redone,
  and the log in memory is the single entry \<^verbatim>\<open>hello\<close>.
\<close>

theorem C7_load_unparseable_log:
  assumes "store ''textbox-content'' = Some ''hello''"
    and "store ''textbox-history'' = Some blob"
    and "JSON_parse blob = None"
  shows "text_value (snd (loadEffect JSON_parse (mount store))) = ''hello''
    \<and> \<not> undoAvailable (fst (loadEffect JSON_parse (mount store)))
    \<and> \<not> redoAvailable (fst (loadEffect JSON_parse (mount store)))
    \<and> historyRef (snd (loadEffect JSON_parse (mount store))) = [''hello'']
    \<and> isLoaded (snd (loadEffect JSON_parse (mount store)))"
  using assms
  by (simp add: loadEffect_def mount_def getItem_def setText_def Let_def
      undoAvailable_def redoAvailable_def createUndoStack_def)

theorem C7_load_unparseable_log_witness:
  "storeBroken ''textbox-content'' = Some ''hello''
   \<and> storeBroken ''textbox-history'' = Some blobBroken
   \<and> tableParse [] blobBroken = None
   \<and> text_value (snd (loadEffect (tableParse []) (mount storeBroken))) = ''hello''
   \<and> \<not> undoAvailable (fst (loadEffect (tableParse []) (mount storeBroken)))
   \<and> historyRef (snd (loadEffect (tableParse []) (mount storeBroken))) = [''hello'']
   \<and> isLoaded (snd (loadEffect (tableParse []) (mount storeBroken)))"
proof -
  have h1: "storeBroken ''textbox-content'' = Some ''hello''"
    and h2: "storeBroken ''textbox-history'' = Some blobBroken"
    by (simp_all add: storeBroken_def storeOf_def)
  have h3: "tableParse [] blobBroken = None" by (simp add: tableParse_def)
  show ?thesis
    using h1 h2 h3
      C7_load_unparseable_log [where store = storeBroken and JSON_parse = "tableParse []", OF h1 h2 h3]
    by simp
qed

text \<open>
  Claim C10. When the store holds a log \<open>[v\<^sub>0, \<dots>, v\<^sub>n]\<close> with \<open>n \<ge> 1\<close> that parses,
  the live value after the load effect is \<open>v\<^sub>n\<close>, the last entry of the log, whatever
  is stored under the content key: the forward closure of each replayed action runs
  when it is pushed.
\<close>

theorem C10_load_text_is_last_entry:
  assumes "store ''textbox-history'' = Some blob"
    and "blob \<noteq> ''''"
    and "JSON_parse blob = Some history"
    and "2 \<le> length history"
  shows "text_value (snd (loadEffect JSON_parse (mount store))) = last history"
  using assms by (simp add: loadEffect_parsed Let_def reconstruct_text)

theorem C10_load_text_is_last_entry_witness:
  "storeAfterUndo ''textbox-history'' = Some blobTwo
   \<and> storeAfterUndo ''textbox-content'' = Some ''''
   \<and> blobTwo \<noteq> ''''
   \<and> parseTwo blobTwo = Some logTwo
   \<and> 2 \<le> length logTwo
   \<and> text_value (snd (loadEffect parseTwo (mount storeAfterUndo))) = ''a''"
proof -
  have h1: "storeAfterUndo ''textbox-history'' = Some blobTwo"
    and h0: "storeAfterUndo ''textbox-content'' = Some ''''"
    by (simp_all add: storeAfterUndo_def storeOf_def)
  have h2: "blobTwo \<noteq> ''''" by (simp add: blobTwo_def)
  have h3: "parseTwo blobTwo = Some logTwo"
    by (simp add: parseTwo_def tableParse_def)
  have h4: "2 \<le> length logTwo" by (simp add: logTwo_def)
  show ?thesis
    using h0 h1 h2 h3 h4 C10_load_text_is_last_entry
        [where store = storeAfterUndo and JSON_parse = parseTwo,
          OF h1 h2 h3 h4]
    by (simp add: logTwo_def)
qed

text \<open>
  Claim C3, as amended. When the store of a freshly mounted component holds a log of
  length \<open>N\<close> that parses, the load effect pushes one action for each index
  \<open>i = 1, \<dots>, N - 1\<close>, in ascending order, with \<^verbatim>\<open>pushAction\<close>: the arguments are the
  value at \<open>i\<close> and the value at \<open>i - 1\<close>, and the forward closure, which sets the live
  value to the value at \<open>i\<close>, runs as the action is recorded. Afterwards the executed
  sequence holds exactly \<open>N - 1\<close> actions (none for the empty log) with these forward
  closures in this order, the reversed sequence is empty, and the state of the component
  is the one that the forward closures, run in order, produce from the loaded content
  and log.
\<close>

theorem C3_load_replays_with_pushAction:
  assumes "store ''textbox-history'' = Some blob"
    and "blob \<noteq> ''''"
    and "JSON_parse blob = Some history"
  shows "map doWithData (past (fst (loadEffect JSON_parse (mount store)))) =
           map (\<lambda>i. loadDoFn (history ! i, history ! (i - 1))) [1..<length history]
    \<and> length (past (fst (loadEffect JSON_parse (mount store)))) = length history - 1
    \<and> future (fst (loadEffect JSON_parse (mount store))) = []
    \<and> snd (loadEffect JSON_parse (mount store)) =
        (fold (\<lambda>i. loadDoFn (history ! i, history ! (i - 1))) [1..<length history]
           (snd (mount store)
              \<lparr>text_value := (case store ''textbox-content'' of None \<Rightarrow> '''' | Some t \<Rightarrow> t),
               historyRef := history\<rparr>))\<lparr>isLoaded := True\<rparr>"
  unfolding loadEffect_parsed [where store = store and JSON_parse = JSON_parse, OF assms]
  by (simp add: Let_def reconstruct_past reconstruct_future reconstruct_snd
      createUndoStack_def mount_def comp_def)

theorem C3_load_replays_with_pushAction_witness:
  "storeFour ''textbox-history'' = Some blobFour
   \<and> blobFour \<noteq> ''''
   \<and> parseFour blobFour = Some logFour
   \<and> length (past (fst (loadEffect parseFour (mount storeFour)))) = 3
   \<and> future (fst (loadEffect parseFour (mount storeFour))) = []
   \<and> map (\<lambda>a. text_value (doWithData a (snd (mount storeFour))))
        (past (fst (loadEffect parseFour (mount storeFour))))
      = [''a'', ''ab'', ''abc'']"
proof -
  let ?P = "parseFour"
  have h1: "storeFour ''textbox-history'' = Some blobFour"
    by (simp add: storeFour_def storeOf_def)
  have h2: "blobFour \<noteq> ''''" by (simp add: blobFour_def)
  have h3: "?P blobFour = Some logFour" by (simp add: parseFour_def tableParse_def)
  note inst = C3_load_replays_with_pushAction
    [where store = storeFour and JSON_parse = ?P, OF h1 h2 h3]
  have upt: "[1..<length logFour] = [1, 2, 3]"
    by (simp add: logFour_def upt_rec)
  have n: "length (past (fst (loadEffect ?P (mount storeFour)))) = 3"
    using inst by (simp add: logFour_def)
  have f: "future (fst (loadEffect ?P (mount storeFour))) = []"
    using inst by blast
  have d: "map doWithData (past (fst (loadEffect ?P (mount storeFour)))) =
      map (\<lambda>i. loadDoFn (logFour ! i, logFour ! (i - 1))) [1, 2, 3]"
    using inst upt by simp
  have "map (\<lambda>a. text_value (doWithData a (snd (mount storeFour))))
          (past (fst (loadEffect ?P (mount storeFour))))
        = map (\<lambda>g. text_value (g (snd (mount storeFour))))
            (map doWithData (past (fst (loadEffect ?P (mount storeFour)))))"
    by (simp add: comp_def)
  also have "\<dots> = [''a'', ''ab'', ''abc'']"
    unfolding d by (simp add: logFour_def loadDoFn_def applyText_def setText_def)
  finally show ?thesis using h1 h2 h3 n f by simp
qed

text \<open>
  Claim C3 as the specification states it has the replay done with manual pushes, the
  forward procedure not run. On the store left by typing \<^verbatim>\<open>a\<close> and undoing, the
  source ends with the live value \<^verbatim>\<open>a\<close>, and the replay by manual pushes with the
  stored content, the empty text.
\<close>

theorem C3_manual_replay_counterexample:
  "text_value (snd (loadEffect parseTwo (mount storeAfterUndo)))
   \<noteq> text_value (snd (initialize_spec parseTwo (mount storeAfterUndo)))"
  by (simp add: example_defs editor_defs stack_defs Let_def reconstruct.simps
      initialize_spec_def reconstruct_spec.simps)

subsection \<open>Where the source misses the specification\<close>

text \<open>
  Claim C2 (the source departs from it). The store holds the log
  \<^verbatim>\<open>["", "a", "ab", "abc"]\<close>. After the load effect, three undos give the live values
  \<^verbatim>\<open>abc\<close>, \<^verbatim>\<open>ab\<close>, \<^verbatim>\<open>a\<close>, not \<^verbatim>\<open>ab\<close>, \<^verbatim>\<open>a\<close> and the empty text: the backward
  closure of the load effect reads its first argument, the newer value. The fourth undo
  changes nothing, as claimed.
\<close>

theorem C2_load_then_undo_evaluated:
  "text_value (snd (loadEffect parseFour (mount storeFour))) = ''abc''
   \<and> text_value (snd (undo (loadEffect parseFour (mount storeFour)))) = ''abc''
   \<and> text_value (snd (undo (undo (loadEffect parseFour (mount storeFour))))) = ''ab''
   \<and> text_value (snd (undo (undo (undo (loadEffect parseFour (mount storeFour)))))) = ''a''
   \<and> undo (undo (undo (undo (loadEffect parseFour (mount storeFour)))))
      = undo (undo (undo (loadEffect parseFour (mount storeFour))))"
  by (simp add: example_defs editor_defs stack_defs Let_def reconstruct.simps)

text \<open>
  Claim C1 (the source departs from it). In a new session, commit \<^verbatim>\<open>hello\<close>, clear
  and undo: the live value is the empty text, not \<^verbatim>\<open>hello\<close>, and the log is the empty
  text twice. The backward closure of \<^verbatim>\<open>handleClear\<close> reads its first argument, the
  empty text, where the prior value is the second.
\<close>

theorem C1_clear_then_undo_evaluated:
  "text_value (snd (handleTextChange linesStringify ''hello'' freshSession)) = ''hello''
   \<and> text_value (snd (handleClear linesStringify (handleTextChange linesStringify ''hello'' freshSession))) = ''''
   \<and> text_value (snd (undo (handleClear linesStringify (handleTextChange linesStringify ''hello'' freshSession)))) = ''''
   \<and> historyRef (snd (undo (handleClear linesStringify (handleTextChange linesStringify ''hello'' freshSession)))) = ['''', '''']"
  by (simp add: example_defs editor_defs stack_defs Let_def)

end
